theory Spec2Isabelle
  imports Main "HOL-Library.Sublist"
begin

section \<open>Stay: a file system over a flat keyed store\<close>

text \<open>
  A shallow embedding of \<^verbatim>\<open>src/stay.js\<close>. JavaScript strings are lists of
  characters, the object store \<^verbatim>\<open>files\<close> of the database is the list of its
  records in ascending order of the primary key \<^verbatim>\<open>path\<close> (the order in which a
  cursor visits them), an \<^verbatim>\<open>async\<close> function returns how its promise settles
  together with the state it leaves, and the decisions of the environment (the clock, and
  whether the database serves a request) are arguments of the operation.

  The operations run one after the other: a transaction on the store starts only when the
  transactions created before it on the same store have finished, so a read that follows
  a write sees the record even though \<^verbatim>\<open>writeFile\<close> returns
  \<^verbatim>\<open>tx.complete\<close>, which is \<^verbatim>\<open>undefined\<close>, without waiting for
  the transaction. For the same reason an error of a \<^verbatim>\<open>put\<close> or
  \<^verbatim>\<open>delete\<close> request is seen by nobody: the operation has resolved and the
  store keeps its records. The calls of \<^verbatim>\<open>console.log\<close> are left out.
\<close>

subsection \<open>String primitives of the platform\<close>

text \<open>\<^verbatim>\<open>a || b\<close> on strings: the empty string is the only falsy string.\<close>

definition or_else :: "string \<Rightarrow> string \<Rightarrow> string" where
  "or_else a b = (if a = [] then b else a)"

definition startsWith :: "string \<Rightarrow> string \<Rightarrow> bool" where
  "startsWith s p = (take (length p) s = p)"

definition endsWith :: "string \<Rightarrow> string \<Rightarrow> bool" where
  "endsWith s p = (length p \<le> length s \<and> drop (length s - length p) s = p)"

text \<open>\<^verbatim>\<open>s.replace(/\/+/g, "/")\<close>: every maximal run of separators becomes one separator.\<close>

fun collapse :: "string \<Rightarrow> string" where
  "collapse [] = []"
| "collapse [c] = [c]"
| "collapse (c # d # cs) =
     (if c = CHR ''/'' \<and> d = CHR ''/'' then collapse (d # cs) else c # collapse (d # cs))"

text \<open>\<^verbatim>\<open>s.lastIndexOf(c)\<close>: the greatest index holding \<open>c\<close>, or \<open>-1\<close>.\<close>

fun lastIndexOf :: "string \<Rightarrow> char \<Rightarrow> int" where
  "lastIndexOf [] c = - 1"
| "lastIndexOf (x # xs) c =
     (let r = lastIndexOf xs c in if 0 \<le> r then r + 1 else if x = c then 0 else - 1)"

text \<open>
  \<^verbatim>\<open>s.substring(a, b)\<close>: both indices are clamped to \<open>0 .. length s\<close> and swapped
  when the first exceeds the second.
\<close>

definition substring :: "string \<Rightarrow> int \<Rightarrow> int \<Rightarrow> string" where
  "substring s a b =
     (let n = int (length s);
          a' = min (max a 0) n;
          b' = min (max b 0) n;
          lo = min a' b';
          hi = max a' b'
      in take (nat (hi - lo)) (drop (nat lo) s))"

text \<open>\<^verbatim>\<open>s.split(sep)\<close> for a one-character separator; the result is never empty.\<close>

fun js_split :: "string \<Rightarrow> char \<Rightarrow> string list" where
  "js_split [] sep = [[]]"
| "js_split (c # cs) sep =
     (if c = sep then [] # js_split cs sep
      else (case js_split cs sep of [] \<Rightarrow> [[c]] | w # ws \<Rightarrow> (c # w) # ws))"

text \<open>\<^verbatim>\<open>xs.pop()\<close>: the last element, \<^verbatim>\<open>undefined\<close> on the empty array.\<close>

definition pop :: "'a list \<Rightarrow> 'a option" where
  "pop xs = (if xs = [] then None else Some (last xs))"

text \<open>
  \<^verbatim>\<open>s.toLowerCase()\<close>. A character stands for the code unit of its code, from
  0 to 255. Among these the platform lowers the capitals \<open>A\<close> to \<open>Z\<close> (65 to 90)
  and the capitals of Latin-1, U+00C0 to U+00DE without the multiplication sign U+00D7
  (192 to 214 and 216 to 222), each to the code unit 32 above it, and keeps every other
  code unit.
\<close>

definition is_capital :: "char \<Rightarrow> bool" where
  "is_capital c =
     (((65::nat) \<le> of_char c \<and> of_char c \<le> (90::nat)) \<or>
      ((192::nat) \<le> of_char c \<and> of_char c \<le> (214::nat)) \<or>
      ((216::nat) \<le> of_char c \<and> of_char c \<le> (222::nat)))"

definition lower_char :: "char \<Rightarrow> char" where
  "lower_char c = (if is_capital c then char_of (of_char c + (32::nat)) else c)"

definition toLowerCase :: "string \<Rightarrow> string" where
  "toLowerCase s = map lower_char s"

text \<open>\<^verbatim>\<open>s.includes(q)\<close>: \<open>q\<close> starts at some position of \<open>s\<close>.\<close>

fun str_includes :: "string \<Rightarrow> string \<Rightarrow> bool" where
  "str_includes [] q = (q = [])"
| "str_includes (c # cs) q = (startsWith (c # cs) q \<or> str_includes cs q)"

subsection \<open>Utility functions\<close>

definition getDir :: "string \<Rightarrow> string" where
  "getDir pth =
     (let normalized = collapse pth
      in or_else (substring normalized 0 (lastIndexOf normalized (CHR ''/''))) ''/'')"

definition normalizePath :: "string \<Rightarrow> string" where
  "normalizePath pth =
     collapse (if \<not> startsWith pth ''/'' then ''/'' @ pth else pth)"

definition isDirectory :: "string \<Rightarrow> bool" where
  "isDirectory pth = endsWith pth ''/''"

subsection \<open>Records, errors and the state\<close>

text \<open>
  What a listing returns for a record is the record without \<^verbatim>\<open>dir\<close> and
  \<^verbatim>\<open>content\<close>, so the stored record extends the listed one.
\<close>

record meta =
  name :: string
  path :: string
  size_e :: nat
  type_e :: string
  createdAt :: string
  updatedAt :: string

record entry = meta +
  dir :: string
  content :: string

text \<open>A JavaScript error object: \<^verbatim>\<open>new Error(m)\<close> has the name \<^verbatim>\<open>Error\<close>.\<close>

datatype js_error = JsError (err_name: string) (message: string)

definition new_Error :: "string \<Rightarrow> js_error" where
  "new_Error m = JsError ''Error'' m"

text \<open>How a promise settles; \<open>Pending\<close> is a promise that nothing ever settles.\<close>

datatype 'a promise = Resolved 'a | Rejected js_error | Pending

text \<open>The promise is rejected with an error whose name is \<open>tag\<close>.\<close>

definition rejected_as :: "string \<Rightarrow> 'a promise \<Rightarrow> bool" where
  "rejected_as tag p =
     (case p of Rejected e \<Rightarrow> err_name e = tag | Resolved v \<Rightarrow> False | Pending \<Rightarrow> False)"

text \<open>
  The module's variable \<^verbatim>\<open>db\<close> (is the handle open?) and the records of the object
  store.
\<close>

record stay_state =
  db :: bool
  files :: "entry list"

text \<open>
  What the database does during one operation: \<open>open_error\<close> is the error of
  \<^verbatim>\<open>indexedDB.open\<close>, consulted only when the handle is opened;
  \<open>thrown\<close> is an exception raised by \<^verbatim>\<open>db.transaction\<close>,
  \<^verbatim>\<open>tx.objectStore\<close> or the call that creates the request; \<open>request_error\<close>
  is the error delivered to the request's \<^verbatim>\<open>onerror\<close>, after which the
  transaction is aborted.
\<close>

record faults =
  open_error :: "js_error option"
  thrown :: "js_error option"
  request_error :: "js_error option"

definition no_faults :: faults where
  "no_faults = \<lparr>open_error = None, thrown = None, request_error = None\<rparr>"

subsection \<open>The object store\<close>

text \<open>Keys are compared character by character; a proper prefix comes first.\<close>

fun key_less :: "string \<Rightarrow> string \<Rightarrow> bool" where
  "key_less [] [] = False"
| "key_less [] (d # ds) = True"
| "key_less (c # cs) [] = False"
| "key_less (c # cs) (d # ds) =
     ((of_char c :: nat) < of_char d \<or> (c = d \<and> key_less cs ds))"

fun store_get :: "string \<Rightarrow> entry list \<Rightarrow> entry option" where
  "store_get k [] = None"
| "store_get k (x # xs) = (if path x = k then Some x else store_get k xs)"

fun store_put :: "entry \<Rightarrow> entry list \<Rightarrow> entry list" where
  "store_put e [] = [e]"
| "store_put e (x # xs) =
     (if path e = path x then e # xs
      else if key_less (path e) (path x) then e # x # xs
      else x # store_put e xs)"

definition store_delete :: "string \<Rightarrow> entry list \<Rightarrow> entry list" where
  "store_delete k xs = filter (\<lambda>x. path x \<noteq> k) xs"

text \<open>The object a cursor's callback pushes on \<^verbatim>\<open>results\<close>.\<close>

definition cursor_value :: "entry \<Rightarrow> meta" where
  "cursor_value v =
     \<lparr>name = name v, path = path v, size_e = size_e v, type_e = or_else (type_e v) ''file'',
      createdAt = createdAt v, updatedAt = updatedAt v\<rparr>"

subsection \<open>Core file operations\<close>

definition ensureInit :: "stay_state \<Rightarrow> faults \<Rightarrow> js_error + stay_state" where
  "ensureInit st f =
     (if db st then Inr st
      else (case open_error f of Some e \<Rightarrow> Inl e | None \<Rightarrow> Inr (st\<lparr>db := True\<rparr>)))"

definition writeFile ::
  "stay_state \<Rightarrow> faults \<Rightarrow> string \<Rightarrow> string \<Rightarrow> string \<Rightarrow> unit promise \<times> stay_state" where
  "writeFile st f now pth cnt =
     (case ensureInit st f of
        Inl error \<Rightarrow>
          (Rejected (new_Error (''Failed to write file '' @ pth @ '': '' @ message error)), st)
      | Inr st1 \<Rightarrow>
          (let p = normalizePath pth in
           case thrown f of
             Some error \<Rightarrow>
               (Rejected (new_Error (''Failed to write file '' @ p @ '': '' @ message error)), st1)
           | None \<Rightarrow>
               (let file = \<lparr>name = last (js_split p (CHR ''/'')), path = p,
                            size_e = length (or_else cnt ''''), type_e = ''file'',
                            createdAt = now, updatedAt = now,
                            dir = getDir p, content = or_else cnt ''''\<rparr>
                in (Resolved (),
                    case request_error f of
                      None \<Rightarrow> st1\<lparr>files := store_put file (files st1)\<rparr>
                    | Some error \<Rightarrow> st1))))"

text \<open>
  \<^verbatim>\<open>readFile\<close>, \<^verbatim>\<open>listFiles\<close>, \<^verbatim>\<open>exists\<close> and
  \<^verbatim>\<open>getAllFiles\<close> create their transaction inside the executor of a
  \<^verbatim>\<open>new Promise\<close> that they return without awaiting it: an exception thrown
  there rejects the returned promise and does not reach the \<^verbatim>\<open>catch\<close> of the
  function, and so does the rejection of a request. \<^verbatim>\<open>writeFile\<close>,
  \<^verbatim>\<open>deleteFile\<close> and \<^verbatim>\<open>mkdir\<close> create the transaction in the
  \<^verbatim>\<open>try\<close> block itself, where the exception is caught and wrapped.
\<close>

definition readFile :: "stay_state \<Rightarrow> faults \<Rightarrow> string \<Rightarrow> string promise \<times> stay_state" where
  "readFile st f pth =
     (case ensureInit st f of
        Inl error \<Rightarrow>
          (Rejected (new_Error (''Failed to read file '' @ pth @ '': '' @ message error)), st)
      | Inr st1 \<Rightarrow>
          (let p = normalizePath pth in
           case thrown f of
             Some error \<Rightarrow> (Rejected error, st1)
           | None \<Rightarrow>
               (case request_error f of
                  Some error \<Rightarrow> (Rejected error, st1)
                | None \<Rightarrow>
                    (case store_get p (files st1) of
                       Some r \<Rightarrow> (Resolved (content r), st1)
                     | None \<Rightarrow> (Rejected (new_Error (''File not found: '' @ p)), st1)))))"

definition deleteFile :: "stay_state \<Rightarrow> faults \<Rightarrow> string \<Rightarrow> unit promise \<times> stay_state" where
  "deleteFile st f pth =
     (case ensureInit st f of
        Inl error \<Rightarrow>
          (Rejected (new_Error (''Failed to delete file '' @ pth @ '': '' @ message error)), st)
      | Inr st1 \<Rightarrow>
          (let p = normalizePath pth in
           case thrown f of
             Some error \<Rightarrow>
               (Rejected (new_Error (''Failed to delete file '' @ p @ '': '' @ message error)), st1)
           | None \<Rightarrow>
               (Resolved (),
                case request_error f of
                  None \<Rightarrow> st1\<lparr>files := store_delete p (files st1)\<rparr>
                | Some error \<Rightarrow> st1)))"

definition listFiles ::
  "stay_state \<Rightarrow> faults \<Rightarrow> string option \<Rightarrow> meta list promise \<times> stay_state" where
  "listFiles st f dir_arg =
     (let d = (case dir_arg of None \<Rightarrow> ''/'' | Some d \<Rightarrow> d) in
      case ensureInit st f of
        Inl error \<Rightarrow>
          (Rejected (new_Error (''Failed to list files in '' @ d @ '': '' @ message error)), st)
      | Inr st1 \<Rightarrow>
          (let d1 = normalizePath d;
               d2 = (if \<not> endsWith d1 ''/'' then d1 @ ''/'' else d1) in
           case thrown f of
             Some error \<Rightarrow> (Rejected error, st1)
           | None \<Rightarrow>
               (case request_error f of
                  Some error \<Rightarrow> (Pending, st1)
                | None \<Rightarrow>
                    (Resolved (map cursor_value (filter (\<lambda>v. dir v = d2) (files st1))), st1))))"

definition exists :: "stay_state \<Rightarrow> faults \<Rightarrow> string \<Rightarrow> bool promise \<times> stay_state" where
  "exists st f pth =
     (case ensureInit st f of
        Inl error \<Rightarrow> (Resolved False, st)
      | Inr st1 \<Rightarrow>
          (let p = normalizePath pth in
           case thrown f of
             Some error \<Rightarrow> (Rejected error, st1)
           | None \<Rightarrow>
               (case request_error f of
                  Some error \<Rightarrow> (Resolved False, st1)
                | None \<Rightarrow> (Resolved (store_get p (files st1) \<noteq> None), st1))))"

subsection \<open>Additional utility methods\<close>

definition mkdir :: "stay_state \<Rightarrow> faults \<Rightarrow> string \<Rightarrow> string \<Rightarrow> unit promise \<times> stay_state" where
  "mkdir st f now pth =
     (case ensureInit st f of
        Inl error \<Rightarrow>
          (Rejected (new_Error (''Failed to create directory '' @ pth @ '': '' @ message error)), st)
      | Inr st1 \<Rightarrow>
          (let p1 = normalizePath pth;
               p = (if \<not> endsWith p1 ''/'' then p1 @ ''/'' else p1) in
           case thrown f of
             Some error \<Rightarrow>
               (Rejected (new_Error (''Failed to create directory '' @ p @ '': '' @ message error)),
                st1)
           | None \<Rightarrow>
               (let d = \<lparr>name = (case pop (filter (\<lambda>s. s \<noteq> []) (js_split p (CHR ''/''))) of
                                   None \<Rightarrow> ''root''
                                 | Some n \<Rightarrow> or_else n ''root''),
                         path = p, size_e = 0, type_e = ''directory'',
                         createdAt = now, updatedAt = now,
                         dir = getDir p, content = ''''\<rparr>
                in (Resolved (),
                    case request_error f of
                      None \<Rightarrow> st1\<lparr>files := store_put d (files st1)\<rparr>
                    | Some error \<Rightarrow> st1))))"

text \<open>
  \<^verbatim>\<open>await m\<close> followed by the rest of the body, and
  \<^verbatim>\<open>try { ... } catch (error) { throw h(error) }\<close> around an awaited body.
\<close>

definition await ::
  "'a promise \<times> stay_state \<Rightarrow> ('a \<Rightarrow> stay_state \<Rightarrow> 'b promise \<times> stay_state) \<Rightarrow>
     'b promise \<times> stay_state" where
  "await m k =
     (case m of
        (Resolved v, st) \<Rightarrow> k v st
      | (Rejected e, st) \<Rightarrow> (Rejected e, st)
      | (Pending, st) \<Rightarrow> (Pending, st))"

definition try_catch ::
  "'a promise \<times> stay_state \<Rightarrow> (js_error \<Rightarrow> js_error) \<Rightarrow> 'a promise \<times> stay_state" where
  "try_catch m h =
     (case m of
        (Resolved v, st) \<Rightarrow> (Resolved v, st)
      | (Rejected e, st) \<Rightarrow> (Rejected (h e), st)
      | (Pending, st) \<Rightarrow> (Pending, st))"

text \<open>
  A composite operation takes the decisions of the environment for each primitive
  operation it runs, in the order of the calls.
\<close>

definition copyFile ::
  "stay_state \<Rightarrow> faults \<Rightarrow> faults \<Rightarrow> string \<Rightarrow> string \<Rightarrow> string \<Rightarrow> unit promise \<times> stay_state" where
  "copyFile st fr fw now source destination =
     try_catch
       (await (readFile st fr source) (\<lambda>cnt st1.
        await (writeFile st1 fw now destination cnt) (\<lambda>u st2.
        (Resolved (), st2))))
       (\<lambda>error. new_Error (''Failed to copy file from '' @ source @ '' to '' @ destination
                             @ '': '' @ message error))"

definition moveFile ::
  "stay_state \<Rightarrow> faults \<Rightarrow> faults \<Rightarrow> string \<Rightarrow> faults \<Rightarrow> string \<Rightarrow> string \<Rightarrow>
     unit promise \<times> stay_state" where
  "moveFile st fr fw now fd source destination =
     try_catch
       (await (copyFile st fr fw now source destination) (\<lambda>u st1.
        await (deleteFile st1 fd source) (\<lambda>u st2.
        (Resolved (), st2))))
       (\<lambda>error. new_Error (''Failed to move file from '' @ source @ '' to '' @ destination
                             @ '': '' @ message error))"

definition renameFile ::
  "stay_state \<Rightarrow> faults \<Rightarrow> faults \<Rightarrow> string \<Rightarrow> faults \<Rightarrow> string \<Rightarrow> string \<Rightarrow>
     unit promise \<times> stay_state" where
  "renameFile st fr fw now fd oldPath newPath =
     try_catch
       (await (moveFile st fr fw now fd oldPath newPath) (\<lambda>u st1.
        (Resolved (), st1)))
       (\<lambda>error. new_Error (''Failed to rename file from '' @ oldPath @ '' to '' @ newPath
                             @ '': '' @ message error))"

definition appendFile ::
  "stay_state \<Rightarrow> faults \<Rightarrow> faults \<Rightarrow> faults \<Rightarrow> string \<Rightarrow> string \<Rightarrow> string \<Rightarrow>
     unit promise \<times> stay_state" where
  "appendFile st fe fr fw now pth cnt =
     try_catch
       (await (exists st fe pth) (\<lambda>found st1.
        await (if found then readFile st1 fr pth else (Resolved '''', st1)) (\<lambda>existingContent st2.
        await (writeFile st2 fw now pth (existingContent @ cnt)) (\<lambda>u st3.
        (Resolved (), st3)))))
       (\<lambda>error. new_Error (''Failed to append to file '' @ pth @ '': '' @ message error))"

definition getAllFiles :: "stay_state \<Rightarrow> faults \<Rightarrow> meta list promise \<times> stay_state" where
  "getAllFiles st f =
     (case ensureInit st f of
        Inl error \<Rightarrow> (Rejected (new_Error (''Failed to get all files: '' @ message error)), st)
      | Inr st1 \<Rightarrow>
          (case thrown f of
             Some error \<Rightarrow> (Rejected error, st1)
           | None \<Rightarrow>
               (case request_error f of
                  Some error \<Rightarrow> (Pending, st1)
                | None \<Rightarrow> (Resolved (map cursor_value (files st1)), st1))))"

definition search :: "stay_state \<Rightarrow> faults \<Rightarrow> string \<Rightarrow> meta list promise \<times> stay_state" where
  "search st f query =
     try_catch
       (await (getAllFiles st f) (\<lambda>fs st1.
        (Resolved (filter (\<lambda>file. str_includes (toLowerCase (name file)) (toLowerCase query) \<or>
                                   str_includes (toLowerCase (path file)) (toLowerCase query)) fs),
         st1)))
       (\<lambda>error. new_Error (''Failed to search for '' @ [CHR 0x22] @ query @ [CHR 0x22]
                             @ '': '' @ message error))"

subsection \<open>Case-insensitive substrings, in the words of the specification\<close>

text \<open>
  Two characters are the same letter when they are equal or one is a capital and the
  other is its small letter, 32 code units above. A query is contained in a string
  without regard to case when some contiguous part of the string has the length of the
  query and agrees with it letter by letter. Neither definition mentions
  \<open>toLowerCase\<close>; they are what \<open>search\<close> is compared with.
\<close>

definition same_letter :: "char \<Rightarrow> char \<Rightarrow> bool" where
  "same_letter c d =
     (c = d \<or>
      (is_capital c \<and> (of_char d :: nat) = of_char c + 32) \<or>
      (is_capital d \<and> (of_char c :: nat) = of_char d + 32))"

definition contains_ignoring_case :: "string \<Rightarrow> string \<Rightarrow> bool" where
  "contains_ignoring_case q s = (\<exists>m. sublist m s \<and> list_all2 same_letter q m)"

subsection \<open>Aliases\<close>

definition move ::
  "stay_state \<Rightarrow> faults \<Rightarrow> faults \<Rightarrow> string \<Rightarrow> faults \<Rightarrow> string \<Rightarrow> string \<Rightarrow>
     unit promise \<times> stay_state" where
  "move st fr fw now fd source dest = moveFile st fr fw now fd source dest"

definition rename ::
  "stay_state \<Rightarrow> faults \<Rightarrow> faults \<Rightarrow> string \<Rightarrow> faults \<Rightarrow> string \<Rightarrow> string \<Rightarrow>
     unit promise \<times> stay_state" where
  "rename st fr fw now fd oldPath newPath = renameFile st fr fw now fd oldPath newPath"

section \<open>Properties\<close>

subsection \<open>The object store as a map from paths to records\<close>

lemma store_get_put_same: "path e = k \<Longrightarrow> store_get k (store_put e xs) = Some e"
  by (induction xs) auto

lemma store_get_put_other: "path e \<noteq> k \<Longrightarrow> store_get k (store_put e xs) = store_get k xs"
  by (induction xs) auto

lemma store_get_delete_same: "store_get k (store_delete k xs) = None"
  by (induction xs) (simp_all add: store_delete_def)

lemma store_get_delete_other:
  "k' \<noteq> k \<Longrightarrow> store_get k' (store_delete k xs) = store_get k' xs"
  by (induction xs) (simp_all add: store_delete_def)

text \<open>
  \<open>put\<close> and \<open>delete\<close> keep the records in ascending order of their keys, the
  order in which a cursor over the store visits them.
\<close>

lemma key_less_trans: "key_less a b \<Longrightarrow> key_less b c \<Longrightarrow> key_less a c"
proof (induction a b arbitrary: c rule: key_less.induct)
  case 1
  then show ?case by simp
next
  case (2 d ds)
  then show ?case by (cases c) simp_all
next
  case (3 x xs)
  then show ?case by simp
next
  case (4 x xs y ys)
  from "4.prems"(2) obtain z zs where c: "c = z # zs"
    by (cases c) simp_all
  from "4.prems" "4.IH" show ?case
    unfolding c by (auto split: if_splits)
qed

lemma key_less_total: "a \<noteq> b \<Longrightarrow> key_less a b \<or> key_less b a"
proof (induction a b rule: key_less.induct)
  case (4 c cs d ds)
  show ?case
  proof (cases "c = d")
    case True
    with 4 show ?thesis by auto
  next
    case False
    then have "(of_char c :: nat) \<noteq> of_char d"
      by simp
    then have "(of_char c :: nat) < of_char d \<or> (of_char d :: nat) < of_char c"
      by linarith
    then show ?thesis
      by auto
  qed
qed simp_all

lemma set_store_put: "set (store_put e xs) \<subseteq> insert e (set xs)"
  by (induction xs) auto

lemma store_put_sorted:
  assumes "sorted_wrt (\<lambda>a b. key_less (path a) (path b)) xs"
  shows "sorted_wrt (\<lambda>a b. key_less (path a) (path b)) (store_put e xs)"
  using assms
proof (induction xs)
  case Nil
  then show ?case by simp
next
  case (Cons x xs)
  from Cons.prems have above: "\<forall>y\<in>set xs. key_less (path x) (path y)"
    and tl: "sorted_wrt (\<lambda>a b. key_less (path a) (path b)) xs"
    by simp_all
  show ?case
  proof (cases "path e = path x")
    case True
    with above tl show ?thesis by simp
  next
    case ne: False
    show ?thesis
    proof (cases "key_less (path e) (path x)")
      case True
      then have "\<forall>y\<in>set xs. key_less (path e) (path y)"
        using above key_less_trans by blast
      with True above tl ne show ?thesis by simp
    next
      case False
      with ne have "key_less (path x) (path e)"
        using key_less_total by blast
      then have "\<forall>y\<in>set (store_put e xs). key_less (path x) (path y)"
        using above set_store_put [of e xs] by blast
      with Cons.IH [OF tl] ne False show ?thesis by simp
    qed
  qed
qed

lemma store_delete_sorted:
  "sorted_wrt (\<lambda>a b. key_less (path a) (path b)) xs \<Longrightarrow>
   sorted_wrt (\<lambda>a b. key_less (path a) (path b)) (store_delete k xs)"
  by (simp add: store_delete_def sorted_wrt_filter)

subsection \<open>String primitives\<close>

lemma or_else_empty: "or_else c [] = c"
  by (simp add: or_else_def)

lemma js_split_nonempty: "js_split s sep \<noteq> []"
  by (induction s) (auto split: list.splits)

lemma startsWith_prefix: "startsWith s q = prefix q s"
  unfolding startsWith_def
  by (metis append_eq_conv_conj prefix_def take_is_prefix)

lemma str_includes_sublist: "str_includes s q = sublist q s"
proof (induction s)
  case Nil
  then show ?case by simp
next
  case (Cons c cs)
  then show ?case
    by (simp add: startsWith_prefix sublist_Cons_right)
qed

subsection \<open>Normalized paths and their parent directory\<close>

text \<open>
  A normalized path starts with the separator and has no two separators in a row;
  normalizing is idempotent. On such a path \<open>getDir\<close> returns a prefix of the path
  which ends in a separator only when it is the root \<open>"/"\<close>.
\<close>

lemma collapse_Cons: "\<exists>ys. collapse (c # cs) = c # ys"
  by (induction "c # cs" arbitrary: c cs rule: collapse.induct) auto

lemma collapse_no_double: "\<not> sublist ''//'' (collapse s)"
proof (induction s rule: collapse.induct)
  case 1
  then show ?case by simp
next
  case (2 c)
  then show ?case by (simp add: sublist_Cons_right)
next
  case (3 c d cs)
  obtain ys where ys: "collapse (d # cs) = d # ys"
    using collapse_Cons by blast
  show ?case
  proof (cases "c = CHR ''/'' \<and> d = CHR ''/''")
    case True
    with 3 show ?thesis by simp
  next
    case False
    with 3 ys show ?thesis
      by (auto simp: sublist_Cons_right)
  qed
qed

lemma collapse_fixed: "\<not> sublist ''//'' s \<Longrightarrow> collapse s = s"
proof (induction s rule: collapse.induct)
  case (3 c d cs)
  then show ?case
    by (auto simp: sublist_Cons_right)
qed simp_all

lemma collapse_idem: "collapse (collapse s) = collapse s"
  by (simp add: collapse_fixed collapse_no_double)

lemma normalizePath_Cons: "\<exists>ys. normalizePath x = CHR ''/'' # ys"
proof (cases x)
  case Nil
  then show ?thesis by (simp add: normalizePath_def startsWith_def)
next
  case (Cons c cs)
  then show ?thesis
    using collapse_Cons [of c cs] collapse_Cons [of "CHR ''/''" "c # cs"]
    by (auto simp: normalizePath_def startsWith_def)
qed

lemma normalizePath_idem: "normalizePath (normalizePath x) = normalizePath x"
proof -
  obtain ys where ys: "normalizePath x = CHR ''/'' # ys"
    using normalizePath_Cons by blast
  have "collapse (normalizePath x) = normalizePath x"
    by (simp add: normalizePath_def collapse_idem)
  moreover have "normalizePath (CHR ''/'' # ys) = collapse (CHR ''/'' # ys)"
    by (simp add: normalizePath_def startsWith_def)
  ultimately show ?thesis
    by (simp add: ys)
qed

lemma lastIndexOf_range: "- 1 \<le> lastIndexOf s c \<and> lastIndexOf s c < int (length s)"
  by (induction s) (auto simp: Let_def)

lemma lastIndexOf_nth: "0 \<le> lastIndexOf s c \<Longrightarrow> s ! nat (lastIndexOf s c) = c"
proof (induction s)
  case Nil
  then show ?case by simp
next
  case (Cons x xs)
  show ?case
  proof (cases "0 \<le> lastIndexOf xs c")
    case True
    with Cons show ?thesis
      by (simp add: Let_def nat_add_distrib)
  next
    case False
    with Cons show ?thesis
      by (auto simp: Let_def split: if_splits)
  qed
qed

lemma substring_take:
  "- 1 \<le> k \<Longrightarrow> k \<le> int (length s) \<Longrightarrow> substring s 0 k = take (nat k) s"
  by (auto simp: substring_def Let_def min_def max_def)

lemma getDir_take:
  "\<not> sublist ''//'' n \<Longrightarrow>
   getDir n = or_else (take (nat (lastIndexOf n (CHR ''/''))) n) ''/''"
  using lastIndexOf_range [of n "CHR ''/''"]
  by (simp add: getDir_def collapse_fixed substring_take)

lemma normalizePath_no_double: "\<not> sublist ''//'' (normalizePath x)"
  by (simp add: normalizePath_def collapse_no_double)

lemma getDir_prefix: "prefix (getDir (normalizePath x)) (normalizePath x)"
proof -
  obtain ys where ys: "normalizePath x = CHR ''/'' # ys"
    using normalizePath_Cons by blast
  have nd: "\<not> sublist ''//'' (normalizePath x)"
    by (rule normalizePath_no_double)
  show ?thesis
    unfolding getDir_take [OF nd] or_else_def
    by (simp add: take_is_prefix ys)
qed

lemma take_ends_double:
  assumes "k < length n" "n ! k = c" "take k n \<noteq> []" "last (take k n) = c"
  shows "sublist [c, c] n"
proof -
  from assms(3) have k: "0 < k" by (cases k) auto
  then obtain j where j: "k = Suc j" by (cases k) auto
  have "take k n = take j n @ [n ! j]"
    using assms(1) j by (simp add: take_Suc_conv_app_nth)
  then have "last (take k n) = n ! j"
    by simp
  with assms have "n ! j = c" by simp
  have "n = take j n @ [n ! j, n ! Suc j] @ drop (Suc (Suc j)) n"
    using assms(1) j by (simp add: Cons_nth_drop_Suc Suc_lessD)
  then show ?thesis
    using \<open>n ! j = c\<close> assms(2) j unfolding sublist_def by metis
qed

lemma endsWith_single: "endsWith s [c] = (s \<noteq> [] \<and> last s = c)"
proof (cases s rule: rev_cases)
  case Nil
  then show ?thesis by (simp add: endsWith_def)
next
  case (snoc ys y)
  then show ?thesis by (auto simp: endsWith_def)
qed

lemma getDir_trailing:
  "endsWith (getDir (normalizePath x)) ''/'' = (getDir (normalizePath x) = ''/'')"
proof -
  let ?n = "normalizePath x"
  let ?k = "lastIndexOf ?n (CHR ''/'')"
  have nd: "\<not> sublist ''//'' ?n"
    by (simp add: normalizePath_def collapse_no_double)
  have g: "getDir ?n = or_else (take (nat ?k) ?n) ''/''"
    by (rule getDir_take [OF nd])
  show ?thesis
  proof (cases "take (nat ?k) ?n = []")
    case True
    then show ?thesis by (simp add: g or_else_def endsWith_def)
  next
    case False
    then have pos: "0 < ?k" by (cases "0 < ?k") auto
    then have nth: "?n ! nat ?k = CHR ''/''"
      by (simp add: lastIndexOf_nth)
    have lt: "nat ?k < length ?n"
      using lastIndexOf_range [of ?n "CHR ''/''"] pos by linarith
    have "last (take (nat ?k) ?n) \<noteq> CHR ''/''"
      using take_ends_double [OF lt nth False] nd by auto
    moreover have "take (nat ?k) ?n \<noteq> ''/''"
      using calculation by auto
    ultimately show ?thesis
      using False by (simp add: g or_else_def endsWith_single)
  qed
qed

lemma sublist_snoc_double:
  assumes "\<not> sublist [c, c] n" and "\<not> endsWith n [c]"
  shows "\<not> sublist [c, c] (n @ [c])"
proof
  assume "sublist [c, c] (n @ [c])"
  then obtain ps ss where eq: "n @ [c] = ps @ [c, c] @ ss"
    unfolding sublist_def by blast
  show False
  proof (cases ss rule: rev_cases)
    case Nil
    with eq have "n = ps @ [c]" by simp
    with assms(2) show False by (simp add: endsWith_single)
  next
    case (snoc ts t)
    with eq have "n = ps @ [c, c] @ ts" by simp
    with assms(1) show False unfolding sublist_def by blast
  qed
qed

lemma mkdir_path_normalized:
  "normalizePath (if \<not> endsWith (normalizePath x) ''/'' then normalizePath x @ ''/''
                  else normalizePath x) =
   (if \<not> endsWith (normalizePath x) ''/'' then normalizePath x @ ''/'' else normalizePath x)"
proof (cases "endsWith (normalizePath x) ''/''")
  case True
  then show ?thesis by (simp add: normalizePath_idem)
next
  case False
  obtain ys where ys: "normalizePath x = CHR ''/'' # ys"
    using normalizePath_Cons by blast
  have "\<not> sublist ''//'' (normalizePath x @ ''/'')"
    using sublist_snoc_double [OF normalizePath_no_double False] .
  then have "collapse (normalizePath x @ ''/'') = normalizePath x @ ''/''"
    by (rule collapse_fixed)
  moreover have "normalizePath ((CHR ''/'' # ys) @ ''/'') = collapse ((CHR ''/'' # ys) @ ''/'')"
    by (simp add: normalizePath_def startsWith_def)
  then have "normalizePath (normalizePath x @ ''/'') = collapse (normalizePath x @ ''/'')"
    by (simp only: ys)
  ultimately show ?thesis
    using False by simp
qed

subsection \<open>The primitive operations when the database serves every request\<close>

lemma ensureInit_no_faults: "ensureInit st no_faults = Inr (st\<lparr>db := True\<rparr>)"
  by (cases "db st") (simp_all add: ensureInit_def no_faults_def)

lemma writeFile_no_faults:
  "writeFile st no_faults now pth cnt =
     (Resolved (),
      st\<lparr>db := True,
         files := store_put
           \<lparr>name = last (js_split (normalizePath pth) (CHR ''/'')), path = normalizePath pth,
            size_e = length cnt, type_e = ''file'', createdAt = now, updatedAt = now,
            dir = getDir (normalizePath pth), content = cnt\<rparr> (files st)\<rparr>)"
  by (simp add: writeFile_def ensureInit_no_faults Let_def)
     (simp add: no_faults_def or_else_empty)

lemma readFile_no_faults:
  "readFile st no_faults pth =
     (case store_get (normalizePath pth) (files st) of
        Some r \<Rightarrow> (Resolved (content r), st\<lparr>db := True\<rparr>)
      | None \<Rightarrow>
          (Rejected (new_Error (''File not found: '' @ normalizePath pth)), st\<lparr>db := True\<rparr>))"
  by (simp add: readFile_def ensureInit_no_faults Let_def)
     (simp add: no_faults_def)

lemma exists_no_faults:
  "exists st no_faults pth =
     (Resolved (store_get (normalizePath pth) (files st) \<noteq> None), st\<lparr>db := True\<rparr>)"
  by (simp add: exists_def ensureInit_no_faults Let_def)
     (simp add: no_faults_def)

lemma deleteFile_no_faults:
  "deleteFile st no_faults pth =
     (Resolved (), st\<lparr>db := True, files := store_delete (normalizePath pth) (files st)\<rparr>)"
  by (simp add: deleteFile_def ensureInit_no_faults Let_def)
     (simp add: no_faults_def)

lemma mkdir_no_faults:
  "mkdir st no_faults now pth =
     (let p1 = normalizePath pth;
          p = (if \<not> endsWith p1 ''/'' then p1 @ ''/'' else p1)
      in (Resolved (),
          st\<lparr>db := True,
             files := store_put
               \<lparr>name = (case pop (filter (\<lambda>s. s \<noteq> []) (js_split p (CHR ''/''))) of
                          None \<Rightarrow> ''root''
                        | Some n \<Rightarrow> or_else n ''root''),
                path = p, size_e = 0, type_e = ''directory'', createdAt = now, updatedAt = now,
                dir = getDir p, content = ''''\<rparr> (files st)\<rparr>))"
  by (simp add: mkdir_def ensureInit_no_faults Let_def)
     (simp add: no_faults_def)

subsection \<open>Round trip\<close>

text \<open>
  Claim C6. For every path \<open>p\<close> and every string \<open>c\<close>, the empty string included, and
  from every state, \<open>writeFile p c\<close> resolves and a following \<open>readFile p\<close> resolves
  with exactly \<open>c\<close>, when the database serves both requests.
\<close>

theorem write_then_read:
  "fst (writeFile st no_faults now p c) = Resolved () \<and>
   fst (readFile (snd (writeFile st no_faults now p c)) no_faults p) = Resolved c"
  by (simp add: writeFile_no_faults readFile_no_faults store_get_put_same)

subsection \<open>Writing into a directory and listing it\<close>

text \<open>
  Claim C1. \<open>writeFile "/a//b.txt" "hi"\<close> on the empty store stores the record at path
  \<open>/a/b.txt\<close> with name \<open>b.txt\<close> and size 2, but with \<open>dir = "/a"\<close>, without the
  separator at the end that \<open>listFiles\<close> puts on its argument: \<open>listFiles "/a"\<close> scans
  the index for \<open>"/a/"\<close> and resolves with no entry.
\<close>

theorem write_then_list_nested:
  "writeFile \<lparr>db = False, files = []\<rparr> no_faults ''2024-01-01T00:00:00.000Z''
     ''/a//b.txt'' ''hi'' =
     (Resolved (),
      \<lparr>db = True,
       files = [\<lparr>name = ''b.txt'', path = ''/a/b.txt'', size_e = 2, type_e = ''file'',
                 createdAt = ''2024-01-01T00:00:00.000Z'',
                 updatedAt = ''2024-01-01T00:00:00.000Z'',
                 dir = ''/a'', content = ''hi''\<rparr>]\<rparr>) \<and>
   fst (listFiles
          (snd (writeFile \<lparr>db = False, files = []\<rparr> no_faults ''2024-01-01T00:00:00.000Z''
                  ''/a//b.txt'' ''hi''))
          no_faults (Some ''/a'')) = Resolved []"
  by code_simp

subsection \<open>Timestamps\<close>

text \<open>
  Whatever the store held at the path, the record that \<open>writeFile\<close> leaves there carries
  the time of this write in both timestamps.
\<close>

lemma writeFile_timestamps:
  "map_option createdAt
     (store_get (normalizePath p) (files (snd (writeFile st no_faults now p c)))) = Some now \<and>
   map_option updatedAt
     (store_get (normalizePath p) (files (snd (writeFile st no_faults now p c)))) = Some now"
  by (simp add: writeFile_no_faults store_get_put_same)

text \<open>
  Claim C2. A write to \<open>/a.txt\<close> on 1 January followed by a write to the same path on
  30 June leaves a record whose \<open>createdAt\<close> is 30 June: the overwrite replaces the time
  of creation by the time of the new write, which is also the new \<open>updatedAt\<close>.
\<close>

theorem overwrite_resets_createdAt:
  "map_option createdAt (store_get ''/a.txt'' (files (snd
      (writeFile \<lparr>db = False, files = []\<rparr> no_faults ''2024-01-01T00:00:00.000Z''
         ''/a.txt'' ''x''))))
     = Some ''2024-01-01T00:00:00.000Z'' \<and>
   map_option createdAt (store_get ''/a.txt'' (files (snd
      (writeFile
         (snd (writeFile \<lparr>db = False, files = []\<rparr> no_faults ''2024-01-01T00:00:00.000Z''
                 ''/a.txt'' ''x''))
         no_faults ''2024-06-30T12:00:00.000Z'' ''/a.txt'' ''y''))))
     = Some ''2024-06-30T12:00:00.000Z'' \<and>
   map_option updatedAt (store_get ''/a.txt'' (files (snd
      (writeFile
         (snd (writeFile \<lparr>db = False, files = []\<rparr> no_faults ''2024-01-01T00:00:00.000Z''
                 ''/a.txt'' ''x''))
         no_faults ''2024-06-30T12:00:00.000Z'' ''/a.txt'' ''y''))))
     = Some ''2024-06-30T12:00:00.000Z''"
  by code_simp

subsection \<open>The parent directory of a stored record\<close>

text \<open>
  What holds of the stored parent directory for every input: it is \<open>getDir\<close> of the
  stored path and a prefix of it, and it ends in a separator only when it is the root.
  The key that \<open>listFiles\<close> scans the index for always ends in a separator.
\<close>

lemma writeFile_stored_dir:
  assumes "store_get (normalizePath p) (files (snd (writeFile st no_faults now p c))) = Some r"
  shows "path r = normalizePath p \<and> dir r = getDir (path r) \<and> prefix (dir r) (path r) \<and>
         endsWith (dir r) ''/'' = (dir r = ''/'')"
proof -
  from assms have "r = \<lparr>name = last (js_split (normalizePath p) (CHR ''/'')), path = normalizePath p,
            size_e = length c, type_e = ''file'', createdAt = now, updatedAt = now,
            dir = getDir (normalizePath p), content = c\<rparr>"
    by (simp add: writeFile_no_faults store_get_put_same)
  then show ?thesis
    by (simp add: getDir_prefix getDir_trailing)
qed

lemma mkdir_stored_dir:
  assumes "q = (if \<not> endsWith (normalizePath p) ''/'' then normalizePath p @ ''/''
                else normalizePath p)"
      and "store_get q (files (snd (mkdir st no_faults now p))) = Some r"
  shows "path r = q \<and> dir r = getDir (path r) \<and> prefix (dir r) (path r) \<and>
         endsWith (dir r) ''/'' = (dir r = ''/'')"
proof -
  have q: "normalizePath q = q"
    unfolding assms(1) by (rule mkdir_path_normalized)
  from assms have "path r = q \<and> dir r = getDir q"
    by (auto simp: mkdir_no_faults Let_def store_get_put_same)
  then show ?thesis
    using getDir_prefix [of q] getDir_trailing [of q] by (simp add: q)
qed

lemma listFiles_key:
  assumes "fst (listFiles st f d) = Resolved ms"
  shows "\<exists>key. endsWith key ''/'' \<and> ms = map cursor_value (filter (\<lambda>v. dir v = key) (files st))"
proof -
  let ?d1 = "normalizePath (case d of None \<Rightarrow> ''/'' | Some d \<Rightarrow> d)"
  let ?key = "if \<not> endsWith ?d1 ''/'' then ?d1 @ ''/'' else ?d1"
  have "endsWith ?key ''/''"
    by (simp add: endsWith_single)
  moreover from assms have "ms = map cursor_value (filter (\<lambda>v. dir v = ?key) (files st))"
    by (auto simp: listFiles_def ensureInit_def Let_def split: option.splits if_splits sum.splits)
  ultimately show ?thesis by blast
qed

text \<open>
  Claim C3. The record written at \<open>/a/b.txt\<close> has \<open>dir = "/a"\<close> and the directory made
  at \<open>/a/b\<close> is stored at \<open>/a/b/\<close> with \<open>dir = "/a/b"\<close>: \<open>getDir\<close> cuts the path
  before its last separator, so the stored parent directory does not end in a separator.
\<close>

theorem stored_dir_without_separator:
  "map_option dir (store_get ''/a/b.txt'' (files (snd
      (writeFile \<lparr>db = False, files = []\<rparr> no_faults ''2024-01-01T00:00:00.000Z''
         ''/a/b.txt'' ''hi''))))
     = Some ''/a'' \<and>
   endsWith ''/a'' ''/'' = False \<and>
   map_option dir (store_get ''/a/b/'' (files (snd
      (mkdir \<lparr>db = False, files = []\<rparr> no_faults ''2024-01-01T00:00:00.000Z'' ''/a/b''))))
     = Some ''/a/b'' \<and>
   endsWith ''/a/b'' ''/'' = False"
  by code_simp

subsection \<open>Copy and move\<close>

lemma copyFile_no_faults:
  "store_get (normalizePath src) (files st) = Some r \<Longrightarrow>
   copyFile st no_faults no_faults now src dst =
     (Resolved (),
      st\<lparr>db := True,
         files := store_put
           \<lparr>name = last (js_split (normalizePath dst) (CHR ''/'')), path = normalizePath dst,
            size_e = length (content r), type_e = ''file'', createdAt = now, updatedAt = now,
            dir = getDir (normalizePath dst), content = content r\<rparr> (files st)\<rparr>)"
  by (simp add: copyFile_def await_def try_catch_def readFile_no_faults writeFile_no_faults)

text \<open>
  Once the handle is open, \<open>deleteFile\<close> is rejected exactly when the database throws
  while the transaction or the request is created; the store is then as it was.
\<close>

lemma deleteFile_thrown:
  "db st \<Longrightarrow> thrown f = Some e \<Longrightarrow>
   deleteFile st f pth =
     (Rejected (new_Error (''Failed to delete file '' @ normalizePath pth @ '': '' @ message e)), st)"
  by (simp add: deleteFile_def ensureInit_def Let_def)

lemma content_after_put:
  "store_get k xs = Some r \<Longrightarrow> content e = content r \<Longrightarrow>
   map_option content (store_get k (store_put e xs)) = Some (content r)"
  by (cases "path e = k") (simp_all add: store_get_put_same store_get_put_other)

text \<open>
  Claim C4, as the code has it. When \<open>src\<close> holds a record, the copy is served and the
  delete of \<open>src\<close> throws \<open>e\<close>, \<open>moveFile\<close> is rejected with a plain \<open>Error\<close> whose message
  is \<open>Failed to move file from src to dst: Failed to delete file\<close> followed by the
  normalized \<open>src\<close> and the message of \<open>e\<close>; the store then holds the content of the
  record at both \<open>src\<close> and \<open>dst\<close>; \<open>renameFile\<close> leaves the same state and puts
  \<open>Failed to rename file from src to dst:\<close> in front of that message.
\<close>

theorem move_delete_failure:
  assumes "store_get (normalizePath src) (files st) = Some r" and "thrown fd = Some e"
  shows "fst (moveFile st no_faults no_faults now fd src dst) =
           Rejected (JsError ''Error''
             (''Failed to move file from '' @ src @ '' to '' @ dst @ '': Failed to delete file ''
                @ normalizePath src @ '': '' @ message e)) \<and>
         map_option content (store_get (normalizePath src)
             (files (snd (moveFile st no_faults no_faults now fd src dst)))) = Some (content r) \<and>
         map_option content (store_get (normalizePath dst)
             (files (snd (moveFile st no_faults no_faults now fd src dst)))) = Some (content r) \<and>
         renameFile st no_faults no_faults now fd src dst =
           (Rejected (JsError ''Error''
              (''Failed to rename file from '' @ src @ '' to '' @ dst
                 @ '': Failed to move file from '' @ src @ '' to '' @ dst
                 @ '': Failed to delete file '' @ normalizePath src @ '': '' @ message e)),
            snd (moveFile st no_faults no_faults now fd src dst))"
proof -
  let ?file = "\<lparr>name = last (js_split (normalizePath dst) (CHR ''/'')), path = normalizePath dst,
            size_e = length (content r), type_e = ''file'', createdAt = now, updatedAt = now,
            dir = getDir (normalizePath dst), content = content r\<rparr>"
  let ?st1 = "st\<lparr>db := True, files := store_put ?file (files st)\<rparr>"
  have mv: "moveFile st no_faults no_faults now fd src dst =
      (Rejected (new_Error (''Failed to move file from '' @ src @ '' to '' @ dst @ '': ''
          @ message (new_Error (''Failed to delete file '' @ normalizePath src @ '': ''
          @ message e)))),
       ?st1)"
    using assms
    by (simp add: moveFile_def await_def try_catch_def copyFile_no_faults deleteFile_thrown)
  have src: "map_option content (store_get (normalizePath src) (files ?st1)) = Some (content r)"
    using assms(1) by (simp add: content_after_put)
  have dst: "map_option content (store_get (normalizePath dst) (files ?st1)) = Some (content r)"
    by (simp add: store_get_put_same)
  show ?thesis
    using src dst by (simp add: mv renameFile_def await_def try_catch_def new_Error_def)
qed

theorem move_delete_failure_witness:
  "store_get (normalizePath ''/a.txt'')
     (files \<lparr>db = True,
             files = [\<lparr>name = ''a.txt'', path = ''/a.txt'', size_e = 2, type_e = ''file'',
                       createdAt = ''t0'', updatedAt = ''t0'', dir = ''/'', content = ''hi''\<rparr>]\<rparr>)
     = Some \<lparr>name = ''a.txt'', path = ''/a.txt'', size_e = 2, type_e = ''file'',
             createdAt = ''t0'', updatedAt = ''t0'', dir = ''/'', content = ''hi''\<rparr> \<and>
   thrown \<lparr>open_error = None, thrown = Some (JsError ''InvalidStateError'' ''closing''),
           request_error = None\<rparr> = Some (JsError ''InvalidStateError'' ''closing'') \<and>
   moveFile
     \<lparr>db = True,
      files = [\<lparr>name = ''a.txt'', path = ''/a.txt'', size_e = 2, type_e = ''file'',
                createdAt = ''t0'', updatedAt = ''t0'', dir = ''/'', content = ''hi''\<rparr>]\<rparr>
     no_faults no_faults ''t1''
     \<lparr>open_error = None, thrown = Some (JsError ''InvalidStateError'' ''closing''),
      request_error = None\<rparr>
     ''/a.txt'' ''/b.txt'' =
   (Rejected (JsError ''Error''
      ''Failed to move file from /a.txt to /b.txt: Failed to delete file /a.txt: closing''),
    \<lparr>db = True,
     files = [\<lparr>name = ''a.txt'', path = ''/a.txt'', size_e = 2, type_e = ''file'',
               createdAt = ''t0'', updatedAt = ''t0'', dir = ''/'', content = ''hi''\<rparr>,
              \<lparr>name = ''b.txt'', path = ''/b.txt'', size_e = 2, type_e = ''file'',
               createdAt = ''t1'', updatedAt = ''t1'', dir = ''/'', content = ''hi''\<rparr>]\<rparr>)"
proof -
  let ?r = "\<lparr>name = ''a.txt'', path = ''/a.txt'', size_e = 2, type_e = ''file'',
             createdAt = ''t0'', updatedAt = ''t0'', dir = ''/'', content = ''hi''\<rparr>"
  let ?st = "\<lparr>db = True, files = [?r]\<rparr>"
  let ?fd = "\<lparr>open_error = None, thrown = Some (JsError ''InvalidStateError'' ''closing''),
              request_error = None\<rparr>"
  have h1: "store_get (normalizePath ''/a.txt'') (files ?st) = Some ?r"
    by code_simp
  have h2: "thrown ?fd = Some (JsError ''InvalidStateError'' ''closing'')"
    by simp
  have ev: "snd (moveFile ?st no_faults no_faults ''t1'' ?fd ''/a.txt'' ''/b.txt'') =
      \<lparr>db = True,
       files = [?r, \<lparr>name = ''b.txt'', path = ''/b.txt'', size_e = 2, type_e = ''file'',
               createdAt = ''t1'', updatedAt = ''t1'', dir = ''/'', content = ''hi''\<rparr>]\<rparr>"
    by code_simp
  have n: "normalizePath ''/a.txt'' = ''/a.txt''"
    by code_simp
  from move_delete_failure [OF h1 h2, of "''t1''" "''/b.txt''"]
  have "fst (moveFile ?st no_faults no_faults ''t1'' ?fd ''/a.txt'' ''/b.txt'') =
      Rejected (JsError ''Error''
        ''Failed to move file from /a.txt to /b.txt: Failed to delete file /a.txt: closing'')"
    by (simp add: n)
  with ev h1 h2 show ?thesis
    by (simp add: prod_eq_iff)
qed

text \<open>
  The claim as the specification words it fails: in the run above the error that
  \<open>moveFile\<close> is rejected with is named \<open>Error\<close>, not \<open>PartialCompletion\<close>.
\<close>

theorem move_delete_failure_untagged:
  "moveFile
     \<lparr>db = True,
      files = [\<lparr>name = ''a.txt'', path = ''/a.txt'', size_e = 2, type_e = ''file'',
                createdAt = ''t0'', updatedAt = ''t0'', dir = ''/'', content = ''hi''\<rparr>]\<rparr>
     no_faults no_faults ''t1''
     \<lparr>open_error = None, thrown = Some (JsError ''InvalidStateError'' ''closing''),
      request_error = None\<rparr>
     ''/a.txt'' ''/b.txt'' =
   (Rejected (JsError ''Error''
      ''Failed to move file from /a.txt to /b.txt: Failed to delete file /a.txt: closing''),
    \<lparr>db = True,
     files = [\<lparr>name = ''a.txt'', path = ''/a.txt'', size_e = 2, type_e = ''file'',
               createdAt = ''t0'', updatedAt = ''t0'', dir = ''/'', content = ''hi''\<rparr>,
              \<lparr>name = ''b.txt'', path = ''/b.txt'', size_e = 2, type_e = ''file'',
               createdAt = ''t1'', updatedAt = ''t1'', dir = ''/'', content = ''hi''\<rparr>]\<rparr>) \<and>
   \<not> rejected_as ''PartialCompletion''
       (fst (moveFile
          \<lparr>db = True,
           files = [\<lparr>name = ''a.txt'', path = ''/a.txt'', size_e = 2, type_e = ''file'',
                     createdAt = ''t0'', updatedAt = ''t0'', dir = ''/'', content = ''hi''\<rparr>]\<rparr>
          no_faults no_faults ''t1''
          \<lparr>open_error = None, thrown = Some (JsError ''InvalidStateError'' ''closing''),
           request_error = None\<rparr>
          ''/a.txt'' ''/b.txt''))"
  by code_simp

lemma readFile_absent:
  assumes "store_get (normalizePath pth) (files st) = None"
  shows "\<exists>e st'. readFile st f pth = (Rejected e, st') \<and> files st' = files st"
  using assms
  by (auto simp: readFile_def ensureInit_def Let_def split: option.splits)

lemma copyFile_absent:
  assumes "store_get (normalizePath src) (files st) = None"
  shows "\<exists>e st'. copyFile st fr fw now src dst = (Rejected e, st') \<and> files st' = files st \<and>
           copyFile st fr fw' now' src dst = (Rejected e, st')"
proof -
  from readFile_absent [OF assms, of fr] obtain e st'
    where "readFile st fr src = (Rejected e, st')" and "files st' = files st"
    by blast
  then show ?thesis
    by (simp add: copyFile_def await_def try_catch_def)
qed

text \<open>
  Claim C5, as the code has it. When \<open>src\<close> holds no record, \<open>moveFile src dst\<close> is
  rejected whatever the database does, and the records of the store are as they were;
  the outcome does not depend on what the write and the delete would have met, since
  neither is run. When the database serves the read, the message ends in
  \<open>File not found:\<close> and the normalized \<open>src\<close>, and \<open>exists\<close> answers afterwards for
  every path, \<open>src\<close> and \<open>dst\<close> among them, what it answered before.
\<close>

theorem move_absent_source:
  assumes "store_get (normalizePath src) (files st) = None"
  shows "(\<exists>e. fst (moveFile st fr fw now fd src dst) = Rejected e) \<and>
         files (snd (moveFile st fr fw now fd src dst)) = files st \<and>
         moveFile st fr fw now fd src dst = moveFile st fr fw' now' fd' src dst \<and>
         fst (moveFile st no_faults fw now fd src dst) =
           Rejected (JsError ''Error''
             (''Failed to move file from '' @ src @ '' to '' @ dst
                @ '': Failed to copy file from '' @ src @ '' to '' @ dst
                @ '': File not found: '' @ normalizePath src)) \<and>
         fst (exists (snd (moveFile st no_faults fw now fd src dst)) no_faults q) =
           fst (exists st no_faults q)"
proof -
  from copyFile_absent [OF assms, of fr fw now dst fw' now'] obtain e st'
    where c: "copyFile st fr fw now src dst = (Rejected e, st')"
      and f: "files st' = files st"
      and c': "copyFile st fr fw' now' src dst = (Rejected e, st')"
    by blast
  have a: "(\<exists>e. fst (moveFile st fr fw now fd src dst) = Rejected e)"
    by (simp add: moveFile_def await_def try_catch_def c)
  have b: "files (snd (moveFile st fr fw now fd src dst)) = files st"
    by (simp add: moveFile_def await_def try_catch_def c f)
  have i: "moveFile st fr fw now fd src dst = moveFile st fr fw' now' fd' src dst"
    by (simp add: moveFile_def await_def try_catch_def c c')
  have nf: "moveFile st no_faults fw now fd src dst =
      (Rejected (new_Error (''Failed to move file from '' @ src @ '' to '' @ dst @ '': ''
         @ message (new_Error (''Failed to copy file from '' @ src @ '' to '' @ dst @ '': ''
         @ message (new_Error (''File not found: '' @ normalizePath src)))))),
       st\<lparr>db := True\<rparr>)"
    using assms
    by (simp add: moveFile_def copyFile_def await_def try_catch_def readFile_no_faults)
  show ?thesis
    using a b i by (simp add: nf new_Error_def exists_no_faults)
qed

theorem move_absent_source_witness:
  "store_get (normalizePath ''/s.txt'') (files \<lparr>db = False, files = []\<rparr>) = None \<and>
   moveFile \<lparr>db = False, files = []\<rparr> no_faults no_faults ''t1'' no_faults ''/s.txt'' ''/d.txt'' =
     (Rejected (JsError ''Error''
        ''Failed to move file from /s.txt to /d.txt: Failed to copy file from /s.txt to /d.txt: File not found: /s.txt''),
      \<lparr>db = True, files = []\<rparr>) \<and>
   fst (exists
          (snd (moveFile \<lparr>db = False, files = []\<rparr> no_faults no_faults ''t1'' no_faults
                  ''/s.txt'' ''/d.txt''))
          no_faults ''/d.txt'') = Resolved False"
proof -
  let ?st = "\<lparr>db = False, files = []\<rparr>"
  have h: "store_get (normalizePath ''/s.txt'') (files ?st) = None"
    by simp
  have n: "normalizePath ''/s.txt'' = ''/s.txt''"
    by code_simp
  have e: "fst (exists ?st no_faults ''/d.txt'') = Resolved False"
    by code_simp
  from move_absent_source [OF h, of no_faults no_faults "''t1''" no_faults "''/d.txt''"
      no_faults "''t1''" no_faults "''/d.txt''"]
  have "fst (moveFile ?st no_faults no_faults ''t1'' no_faults ''/s.txt'' ''/d.txt'') =
          Rejected (JsError ''Error''
            ''Failed to move file from /s.txt to /d.txt: Failed to copy file from /s.txt to /d.txt: File not found: /s.txt'')"
    and "files (snd (moveFile ?st no_faults no_faults ''t1'' no_faults ''/s.txt'' ''/d.txt'')) = []"
    and "fst (exists (snd (moveFile ?st no_faults no_faults ''t1'' no_faults ''/s.txt'' ''/d.txt''))
           no_faults ''/d.txt'') = Resolved False"
    by (simp_all add: n e)
  moreover have "db (snd (moveFile ?st no_faults no_faults ''t1'' no_faults ''/s.txt'' ''/d.txt''))"
    by code_simp
  ultimately show ?thesis
    using h by (simp add: prod_eq_iff stay_state.equality)
qed

text \<open>
  The claim as the specification words it fails where \<open>dst\<close> held a record before the
  move: the record is still there afterwards, so \<open>exists dst\<close> is true.
\<close>

theorem move_absent_source_keeps_destination:
  "fst (moveFile
     \<lparr>db = True,
      files = [\<lparr>name = ''d.txt'', path = ''/d.txt'', size_e = 2, type_e = ''file'',
                createdAt = ''t0'', updatedAt = ''t0'', dir = ''/'', content = ''hi''\<rparr>]\<rparr>
     no_faults no_faults ''t1'' no_faults ''/s.txt'' ''/d.txt'') =
   Rejected (JsError ''Error''
      ''Failed to move file from /s.txt to /d.txt: Failed to copy file from /s.txt to /d.txt: File not found: /s.txt'') \<and>
   fst (exists
     (snd (moveFile
        \<lparr>db = True,
         files = [\<lparr>name = ''d.txt'', path = ''/d.txt'', size_e = 2, type_e = ''file'',
                   createdAt = ''t0'', updatedAt = ''t0'', dir = ''/'', content = ''hi''\<rparr>]\<rparr>
        no_faults no_faults ''t1'' no_faults ''/s.txt'' ''/d.txt''))
     no_faults ''/d.txt'') = Resolved True"
  by code_simp

subsection \<open>Append\<close>

text \<open>
  Claim C7. From a store with no record at \<open>p\<close>, \<open>appendFile p "a"\<close> followed by
  \<open>appendFile p "b"\<close> both resolve, and \<open>readFile p\<close> then resolves with \<open>"ab"\<close>.
\<close>

theorem append_twice:
  assumes "store_get (normalizePath p) (files st) = None"
  shows "fst (appendFile st no_faults no_faults no_faults t1 p ''a'') = Resolved () \<and>
         fst (appendFile (snd (appendFile st no_faults no_faults no_faults t1 p ''a''))
                no_faults no_faults no_faults t2 p ''b'') = Resolved () \<and>
         fst (readFile
                (snd (appendFile (snd (appendFile st no_faults no_faults no_faults t1 p ''a''))
                        no_faults no_faults no_faults t2 p ''b''))
                no_faults p) = Resolved ''ab''"
  using assms
  by (simp add: appendFile_def await_def try_catch_def exists_no_faults readFile_no_faults
      writeFile_no_faults store_get_put_same)

theorem append_twice_witness:
  "store_get (normalizePath ''/log.txt'') (files \<lparr>db = False, files = []\<rparr>) = None \<and>
   fst (readFile
          (snd (appendFile
                  (snd (appendFile \<lparr>db = False, files = []\<rparr> no_faults no_faults no_faults
                          ''t1'' ''/log.txt'' ''a''))
                  no_faults no_faults no_faults ''t2'' ''/log.txt'' ''b''))
          no_faults ''/log.txt'') = Resolved ''ab''"
proof -
  have h: "store_get (normalizePath ''/log.txt'') (files \<lparr>db = False, files = []\<rparr>) = None"
    by simp
  from append_twice [OF h, of "''t1''" "''t2''"] h show ?thesis
    by simp
qed

subsection \<open>Existence checks\<close>

text \<open>
  \<open>exists\<close> resolves with a boolean unless the database throws while the transaction
  or the request is created; a failure to open the database and an error of the
  request both give \<open>false\<close>.
\<close>

lemma exists_resolves_unless_thrown:
  "thrown f = None \<Longrightarrow> \<exists>b. fst (exists st f pth) = Resolved b"
  by (cases "request_error f"; cases "open_error f"; cases "db st")
     (auto simp add: exists_def ensureInit_def)

lemma exists_false_on_request_error:
  "thrown f = None \<Longrightarrow> request_error f = Some e \<Longrightarrow> fst (exists st f pth) = Resolved False"
  by (simp add: exists_def ensureInit_def Let_def split: option.splits)

lemma exists_false_on_open_error:
  "\<not> db st \<Longrightarrow> open_error f = Some e \<Longrightarrow> fst (exists st f pth) = Resolved False"
  by (simp add: exists_def ensureInit_def)

lemma exists_thrown:
  "db st \<Longrightarrow> thrown f = Some e \<Longrightarrow> exists st f pth = (Rejected e, st)"
  by (simp add: exists_def ensureInit_def)

text \<open>
  Claim C8. With the handle open, when \<^verbatim>\<open>db.transaction\<close> throws (the connection
  is closing), the exception is raised inside the executor of the promise that
  \<open>exists\<close> returns without awaiting it: the promise is rejected with that exception
  and the \<^verbatim>\<open>catch\<close> of \<open>exists\<close> never sees it.
\<close>

theorem exists_rejects_on_throw:
  "fst (exists \<lparr>db = True, files = []\<rparr>
          \<lparr>open_error = None,
           thrown = Some (JsError ''InvalidStateError'' ''The database connection is closing.''),
           request_error = None\<rparr>
          ''/config.json'')
     = Rejected (JsError ''InvalidStateError'' ''The database connection is closing.'')"
  by code_simp

subsection \<open>Search\<close>

text \<open>
  Lower-casing identifies exactly the characters that are the same letter, so the test
  that \<open>search\<close> makes on lower-cased strings is containment without regard to
  case.
\<close>

lemma of_char_lower_char:
  "(of_char (lower_char c) :: nat) = (if is_capital c then of_char c + 32 else of_char c)"
proof (cases "is_capital c")
  case True
  then have "(of_char c :: nat) + 32 < 256"
    by (auto simp: is_capital_def)
  with True show ?thesis
    by (simp add: lower_char_def)
next
  case False
  then show ?thesis by (simp add: lower_char_def)
qed

lemma lower_char_eq_iff: "lower_char c = lower_char d \<longleftrightarrow> same_letter c d"
proof -
  have "lower_char c = lower_char d \<longleftrightarrow>
        (of_char (lower_char c) :: nat) = of_char (lower_char d)"
    by simp
  also have "\<dots> \<longleftrightarrow> same_letter c d"
  proof -
    have eq: "c = d \<longleftrightarrow> (of_char c :: nat) = of_char d"
      by simp
    show ?thesis
      unfolding of_char_lower_char same_letter_def eq is_capital_def
      by auto
  qed
  finally show ?thesis .
qed

lemma toLowerCase_eq_iff: "toLowerCase q = toLowerCase m \<longleftrightarrow> list_all2 same_letter q m"
proof (induction q arbitrary: m)
  case Nil
  then show ?case by (auto simp: toLowerCase_def)
next
  case (Cons c cs)
  then show ?case
    by (cases m) (auto simp: toLowerCase_def lower_char_eq_iff)
qed

lemma sublist_map_iff:
  "sublist (map f q) (map f s) \<longleftrightarrow> (\<exists>m. sublist m s \<and> map f q = map f m)"
proof
  assume "sublist (map f q) (map f s)"
  then obtain ps ss where "map f s = ps @ map f q @ ss"
    unfolding sublist_def by blast
  then have "\<exists>s1 r. s = s1 @ r \<and> ps = map f s1 \<and> map f q @ ss = map f r"
    by (simp only: map_eq_append_conv)
  then obtain s1 r where s: "s = s1 @ r" and "map f r = map f q @ ss"
    by auto
  then have "\<exists>m s3. r = m @ s3 \<and> map f q = map f m \<and> ss = map f s3"
    by (simp only: map_eq_append_conv)
  then obtain m s3 where r: "r = m @ s3" and m: "map f m = map f q"
    by auto
  from s r have "sublist m s"
    unfolding sublist_def by blast
  with m show "\<exists>m. sublist m s \<and> map f q = map f m"
    by auto
next
  assume "\<exists>m. sublist m s \<and> map f q = map f m"
  then obtain m ps ss where "s = ps @ m @ ss" and "map f q = map f m"
    unfolding sublist_def by blast
  then have "map f s = map f ps @ map f q @ map f ss"
    by simp
  then show "sublist (map f q) (map f s)"
    unfolding sublist_def by blast
qed

lemma str_includes_ignoring_case:
  "str_includes (toLowerCase s) (toLowerCase q) = contains_ignoring_case q s"
  unfolding str_includes_sublist contains_ignoring_case_def toLowerCase_eq_iff [symmetric]
  by (simp add: toLowerCase_def sublist_map_iff)

lemma toLowerCase_idem: "toLowerCase (toLowerCase s) = toLowerCase s"
proof -
  have "lower_char (lower_char c) = lower_char c" for c
    unfolding lower_char_eq_iff
    by (auto simp: same_letter_def lower_char_def is_capital_def)
  then show ?thesis
    by (simp add: toLowerCase_def)
qed

text \<open>
  Claim C9. When the full scan \<open>getAllFiles\<close> resolves with the entries \<open>fs\<close>,
  \<open>search query\<close> resolves with the entries of \<open>fs\<close>, in the order of \<open>fs\<close>, whose
  lower-cased name or lower-cased path has the lower-cased query as a contiguous
  substring, and with nothing else; these are the entries whose name or path contains
  the query without regard to the case of the letters.
\<close>

theorem search_filters_scan:
  assumes "getAllFiles st f = (Resolved fs, st')"
  shows "search st f query =
           (Resolved (filter (\<lambda>file. sublist (toLowerCase query) (toLowerCase (name file)) \<or>
                                      sublist (toLowerCase query) (toLowerCase (path file))) fs),
            st') \<and>
         search st f query =
           (Resolved (filter (\<lambda>file. contains_ignoring_case query (name file) \<or>
                                      contains_ignoring_case query (path file)) fs),
            st')"
  using assms
  by (simp add: search_def await_def try_catch_def str_includes_ignoring_case
      str_includes_sublist [symmetric])

theorem search_filters_scan_witness:
  "getAllFiles
     \<lparr>db = True,
      files = [\<lparr>name = ''a.txt'', path = ''/notes/a.txt'', size_e = 1, type_e = ''file'',
                createdAt = ''t1'', updatedAt = ''t1'', dir = ''/notes'', content = ''1''\<rparr>,
               \<lparr>name = ''note2.md'', path = ''/x/note2.md'', size_e = 1, type_e = ''file'',
                createdAt = ''t2'', updatedAt = ''t2'', dir = ''/x'', content = ''2''\<rparr>,
               \<lparr>name = ''other.txt'', path = ''/y/other.txt'', size_e = 1, type_e = ''file'',
                createdAt = ''t3'', updatedAt = ''t3'', dir = ''/y'', content = ''3''\<rparr>]\<rparr>
     no_faults =
   (Resolved [\<lparr>name = ''a.txt'', path = ''/notes/a.txt'', size_e = 1, type_e = ''file'',
               createdAt = ''t1'', updatedAt = ''t1''\<rparr>,
              \<lparr>name = ''note2.md'', path = ''/x/note2.md'', size_e = 1, type_e = ''file'',
               createdAt = ''t2'', updatedAt = ''t2''\<rparr>,
              \<lparr>name = ''other.txt'', path = ''/y/other.txt'', size_e = 1, type_e = ''file'',
               createdAt = ''t3'', updatedAt = ''t3''\<rparr>],
    \<lparr>db = True,
      files = [\<lparr>name = ''a.txt'', path = ''/notes/a.txt'', size_e = 1, type_e = ''file'',
                createdAt = ''t1'', updatedAt = ''t1'', dir = ''/notes'', content = ''1''\<rparr>,
               \<lparr>name = ''note2.md'', path = ''/x/note2.md'', size_e = 1, type_e = ''file'',
                createdAt = ''t2'', updatedAt = ''t2'', dir = ''/x'', content = ''2''\<rparr>,
               \<lparr>name = ''other.txt'', path = ''/y/other.txt'', size_e = 1, type_e = ''file'',
                createdAt = ''t3'', updatedAt = ''t3'', dir = ''/y'', content = ''3''\<rparr>]\<rparr>) \<and>
   fst (search
     \<lparr>db = True,
      files = [\<lparr>name = ''a.txt'', path = ''/notes/a.txt'', size_e = 1, type_e = ''file'',
                createdAt = ''t1'', updatedAt = ''t1'', dir = ''/notes'', content = ''1''\<rparr>,
               \<lparr>name = ''note2.md'', path = ''/x/note2.md'', size_e = 1, type_e = ''file'',
                createdAt = ''t2'', updatedAt = ''t2'', dir = ''/x'', content = ''2''\<rparr>,
               \<lparr>name = ''other.txt'', path = ''/y/other.txt'', size_e = 1, type_e = ''file'',
                createdAt = ''t3'', updatedAt = ''t3'', dir = ''/y'', content = ''3''\<rparr>]\<rparr>
     no_faults ''NOTE'') =
   Resolved [\<lparr>name = ''a.txt'', path = ''/notes/a.txt'', size_e = 1, type_e = ''file'',
               createdAt = ''t1'', updatedAt = ''t1''\<rparr>,
              \<lparr>name = ''note2.md'', path = ''/x/note2.md'', size_e = 1, type_e = ''file'',
               createdAt = ''t2'', updatedAt = ''t2''\<rparr>]"
proof -
  let ?st = "\<lparr>db = True,
      files = [\<lparr>name = ''a.txt'', path = ''/notes/a.txt'', size_e = 1, type_e = ''file'',
                createdAt = ''t1'', updatedAt = ''t1'', dir = ''/notes'', content = ''1''\<rparr>,
               \<lparr>name = ''note2.md'', path = ''/x/note2.md'', size_e = 1, type_e = ''file'',
                createdAt = ''t2'', updatedAt = ''t2'', dir = ''/x'', content = ''2''\<rparr>,
               \<lparr>name = ''other.txt'', path = ''/y/other.txt'', size_e = 1, type_e = ''file'',
                createdAt = ''t3'', updatedAt = ''t3'', dir = ''/y'', content = ''3''\<rparr>]\<rparr>"
  let ?a = "\<lparr>name = ''a.txt'', path = ''/notes/a.txt'', size_e = 1, type_e = ''file'',
               createdAt = ''t1'', updatedAt = ''t1''\<rparr>"
  let ?b = "\<lparr>name = ''note2.md'', path = ''/x/note2.md'', size_e = 1, type_e = ''file'',
               createdAt = ''t2'', updatedAt = ''t2''\<rparr>"
  let ?c = "\<lparr>name = ''other.txt'', path = ''/y/other.txt'', size_e = 1, type_e = ''file'',
               createdAt = ''t3'', updatedAt = ''t3''\<rparr>"
  have h: "getAllFiles ?st no_faults = (Resolved [?a, ?b, ?c], ?st)"
    by code_simp
  have sel: "filter (\<lambda>file. sublist (toLowerCase ''NOTE'') (toLowerCase (name file)) \<or>
                             sublist (toLowerCase ''NOTE'') (toLowerCase (path file))) [?a, ?b, ?c]
               = [?a, ?b]"
    by code_simp
  from search_filters_scan [OF h, of "''NOTE''"]
  have "search ?st no_faults ''NOTE'' =
      (Resolved (filter (\<lambda>file. sublist (toLowerCase ''NOTE'') (toLowerCase (name file)) \<or>
                                 sublist (toLowerCase ''NOTE'') (toLowerCase (path file)))
                   [?a, ?b, ?c]), ?st)"
    by (rule conjunct1)
  then have "fst (search ?st no_faults ''NOTE'') = Resolved [?a, ?b]"
    by (simp only: sel fst_conv)
  with h show ?thesis
    by simp
qed

text \<open>
  The case of the query does not matter: queries that agree letter by letter select the
  same entries. A capital of Latin-1 in the query finds its small letter in a name.
\<close>

lemma search_query_case:
  assumes "getAllFiles st f = (Resolved fs, st')" and "list_all2 same_letter q q'"
  shows "search st f q = search st f q'"
proof -
  from assms(2) have "toLowerCase q = toLowerCase q'"
    by (simp add: toLowerCase_eq_iff)
  with assms(1) show ?thesis
    by (simp add: search_def await_def try_catch_def)
qed

lemma search_latin1_capital:
  "fst (search
     \<lparr>db = True,
      files = [\<lparr>name = CHR 0xE9 # ''.txt'', path = CHR ''/'' # CHR 0xE9 # ''.txt'', size_e = 1,
                type_e = ''file'', createdAt = ''t1'', updatedAt = ''t1'', dir = ''/'',
                content = ''1''\<rparr>]\<rparr>
     no_faults [CHR 0xC9]) =
   Resolved [\<lparr>name = CHR 0xE9 # ''.txt'', path = CHR ''/'' # CHR 0xE9 # ''.txt'', size_e = 1,
              type_e = ''file'', createdAt = ''t1'', updatedAt = ''t1''\<rparr>]"
  by code_simp

subsection \<open>Moving a file onto itself\<close>

text \<open>
  Claim C10. When \<open>src\<close> and \<open>dst\<close> normalize to the same path and that path holds a
  record \<open>r\<close>, \<open>moveFile src dst\<close> resolves: its copy step leaves the content of \<open>r\<close>
  at the path, its delete step removes the record, and afterwards \<open>exists\<close> answers
  \<open>false\<close> and \<open>readFile\<close> is rejected: the content is lost.
\<close>

theorem move_onto_itself:
  assumes "normalizePath src = normalizePath dst"
      and "store_get (normalizePath src) (files st) = Some r"
  shows "map_option content (store_get (normalizePath src)
           (files (snd (copyFile st no_faults no_faults now src dst)))) = Some (content r) \<and>
         fst (moveFile st no_faults no_faults now no_faults src dst) = Resolved () \<and>
         store_get (normalizePath src)
           (files (snd (moveFile st no_faults no_faults now no_faults src dst))) = None \<and>
         fst (exists (snd (moveFile st no_faults no_faults now no_faults src dst)) no_faults src)
           = Resolved False \<and>
         fst (readFile (snd (moveFile st no_faults no_faults now no_faults src dst)) no_faults src)
           = Rejected (new_Error (''File not found: '' @ normalizePath src))"
  using assms
  by (simp add: moveFile_def await_def try_catch_def copyFile_no_faults deleteFile_no_faults
      exists_no_faults readFile_no_faults store_get_delete_same store_get_put_same)

theorem move_onto_itself_witness:
  "normalizePath ''/a.txt'' = normalizePath ''//a.txt'' \<and>
   store_get (normalizePath ''/a.txt'')
     (files \<lparr>db = True,
             files = [\<lparr>name = ''a.txt'', path = ''/a.txt'', size_e = 2, type_e = ''file'',
                       createdAt = ''t0'', updatedAt = ''t0'', dir = ''/'', content = ''hi''\<rparr>]\<rparr>)
     = Some \<lparr>name = ''a.txt'', path = ''/a.txt'', size_e = 2, type_e = ''file'',
             createdAt = ''t0'', updatedAt = ''t0'', dir = ''/'', content = ''hi''\<rparr> \<and>
   fst (moveFile
          \<lparr>db = True,
           files = [\<lparr>name = ''a.txt'', path = ''/a.txt'', size_e = 2, type_e = ''file'',
                     createdAt = ''t0'', updatedAt = ''t0'', dir = ''/'', content = ''hi''\<rparr>]\<rparr>
          no_faults no_faults ''t1'' no_faults ''/a.txt'' ''//a.txt'') = Resolved () \<and>
   fst (exists
          (snd (moveFile
             \<lparr>db = True,
              files = [\<lparr>name = ''a.txt'', path = ''/a.txt'', size_e = 2, type_e = ''file'',
                        createdAt = ''t0'', updatedAt = ''t0'', dir = ''/'', content = ''hi''\<rparr>]\<rparr>
             no_faults no_faults ''t1'' no_faults ''/a.txt'' ''//a.txt''))
          no_faults ''/a.txt'') = Resolved False"
proof -
  let ?r = "\<lparr>name = ''a.txt'', path = ''/a.txt'', size_e = 2, type_e = ''file'',
             createdAt = ''t0'', updatedAt = ''t0'', dir = ''/'', content = ''hi''\<rparr>"
  let ?st = "\<lparr>db = True, files = [?r]\<rparr>"
  have h1: "normalizePath ''/a.txt'' = normalizePath ''//a.txt''"
    by code_simp
  have h2: "store_get (normalizePath ''/a.txt'') (files ?st) = Some ?r"
    by code_simp
  from move_onto_itself [OF h1 h2, of "''t1''"] h1 h2 show ?thesis
    by simp
qed

end
